theory Spec2Isabelle
  imports Complex_Main "HOL-Library.Stream"
begin

section \<open>A model of risk\_normalization.cpp\<close>

text \<open>
  The program estimates, by Monte Carlo resampling of historical trade returns, the
  largest fraction of capital that keeps the drawdown tail within a tolerance, and the
  25th percentile of the compound annual return at that fraction.

  Conventions of the model.
  \<^item> A \<open>double\<close> is a real number. Rounding and overflow are not modelled. A division
    whose divisor can be zero (lines 62 and 121) yields a \<open>quotient\<close>, which is a real
    number, an infinity or NaN, and the comparisons on it are the IEEE ones.
  \<^item> An \<open>int\<close> has 32 bits and its values are integers from \<open>-2^31\<close> to
    \<open>2^31 - 1\<close>; a loop \<open>for (i = 0; i < n; ++i)\<close> runs \<open>nat n\<close> times, that is
    not at all for a negative \<open>n\<close>. The two places where a value can leave the range of
    \<open>int\<close> are written out with \<open>to_int32\<close>: the sum
    \<open>number_trades_in_forecast + 1\<close> of line 84, and the narrowing of
    \<open>trades.size() - 1\<close> to the \<open>int\<close> parameter of the distribution on line 86.
    The subtraction \<open>size() - 1\<close> is made in \<open>size_t\<close> and wraps at zero on an
    empty vector (lines 86, 203 and 204): \<open>size_t_pred\<close>.
  \<^item> A \<open>std::vector<double>\<close> is a list. An access outside the vector, a vector
    constructed with a negative size and a distribution constructed on an empty range
    are values of the type \<open>error\<close>: the run of the program has no result there.
  \<^item> The generator \<open>std::mt19937\<close> and \<open>std::uniform_int_distribution\<close> belong to
    the standard library. The generator is an infinite stream of natural numbers, and a
    draw from the range \<open>[0, b]\<close> reduces the head of the stream into that range and
    moves to the tail. Every sequence of indices in the range comes from some stream;
    the probability law of the draws is outside the model.
  \<^item> Console output is left out.
\<close>

subsection \<open>Failures, quotients and the random generator\<close>

text \<open>
  The ways a run stops without a result. None of them is an error the program reports:
  \<^item> \<open>Undefined_Out_Of_Bounds\<close>: \<open>operator[]\<close> of a vector outside its range, which
    is undefined behaviour;
  \<^item> \<open>Uncaught_Length_Error\<close>: the exception \<open>std::length_error\<close> of a vector
    constructed with a negative \<open>int\<close> converted to \<open>size_t\<close>, which nothing
    catches;
  \<^item> \<open>Undefined_Distribution_Range\<close>: a \<open>uniform_int_distribution<>(a, b)\<close>
    with \<open>b < a\<close>, which violates the precondition of its constructor.
\<close>

datatype error =
    Undefined_Out_Of_Bounds
  | Uncaught_Length_Error
  | Undefined_Distribution_Range

datatype quotient = Finite real | PosInf | NegInf | NaN

text \<open>The division of two doubles \<open>x / y\<close>, a zero divisor being \<open>+0.0\<close>.\<close>

definition divide_double :: "real \<Rightarrow> real \<Rightarrow> quotient" where
  "divide_double x y =
     (if y \<noteq> 0 then Finite (x / y)
      else if x = 0 then NaN
      else if 0 < x then PosInf
      else NegInf)"

text \<open>The comparison \<open>a > b\<close> of doubles: false as soon as one side is NaN.\<close>

fun gt_double :: "quotient \<Rightarrow> quotient \<Rightarrow> bool" where
  "gt_double (Finite x) (Finite y) = (x > y)"
| "gt_double (Finite x) NegInf = True"
| "gt_double PosInf (Finite y) = True"
| "gt_double PosInf NegInf = True"
| "gt_double _ _ = False"

text \<open>The test \<open>std::abs(tail_risk - target) < tolerance\<close> of line 173.\<close>

fun within_tolerance :: "quotient \<Rightarrow> real \<Rightarrow> real \<Rightarrow> bool" where
  "within_tolerance (Finite t) target tolerance = (\<bar>t - target\<bar> < tolerance)"
| "within_tolerance _ target tolerance = False"

type_synonym rng = "nat stream"

text \<open>One call \<open>dist(rng)\<close> of a \<open>uniform_int_distribution<>(0, b)\<close> with \<open>0 \<le> b\<close>.\<close>

definition uniform_int :: "int \<Rightarrow> rng \<Rightarrow> int \<times> rng" where
  "uniform_int b g = (int (shd g mod nat (b + 1)), stl g)"

text \<open>
  The value that an integer takes in a 32-bit \<open>int\<close>, in two's complement: the result
  of a sum that overflows, and of the narrowing of a \<open>size_t\<close>.
\<close>

definition to_int32 :: "int \<Rightarrow> int" where
  "to_int32 x = (x + 2147483648) mod 4294967296 - 2147483648"

text \<open>The value of \<open>n - 1\<close> in the type \<open>size_t\<close> (64 bits): it wraps at zero.\<close>

definition size_t_pred :: "nat \<Rightarrow> nat" where
  "size_t_pred n = (if n = 0 then 2 ^ 64 - 1 else n - 1)"

subsection \<open>Statistics utilities (lines 37 to 52, 124 to 128)\<close>

definition computeMean :: "real list \<Rightarrow> real" where
  "computeMean data =
     (if data = [] then 0
      else foldl (+) 0 data / real (length data))"

definition computeStdDev :: "real list \<Rightarrow> real \<Rightarrow> real" where
  "computeStdDev data mean =
     (if length data < 2 then 0
      else sqrt (foldl (\<lambda>accum x. accum + (x - mean) * (x - mean)) 0 data
                   / real (length data - 1)))"

definition computeStatistics :: "real list \<Rightarrow> real \<times> real" where
  "computeStatistics data =
     (let mean = computeMean data; stdev = computeStdDev data mean in (mean, stdev))"

subsection \<open>Drawdown and growth rate (lines 54 to 74)\<close>

text \<open>
  The loop of \<open>calculateDrawdown\<close> over the remaining points, from the current values
  of \<open>peak\<close> and \<open>max_drawdown\<close>.
\<close>

fun drawdown_loop :: "real \<Rightarrow> quotient \<Rightarrow> real list \<Rightarrow> quotient" where
  "drawdown_loop peak max_drawdown [] = max_drawdown"
| "drawdown_loop peak max_drawdown (equity # rest) =
     (let peak' = (if equity > peak then equity else peak);
          drawdown = divide_double (peak' - equity) peak'
      in drawdown_loop peak'
           (if gt_double drawdown max_drawdown then drawdown else max_drawdown) rest)"

definition calculateDrawdown :: "real list \<Rightarrow> error + quotient" where
  "calculateDrawdown equity_curve =
     (case equity_curve of
        [] \<Rightarrow> Inl Undefined_Out_Of_Bounds
      | e0 # _ \<Rightarrow> Inr (drawdown_loop e0 (Finite 0) equity_curve))"

text \<open>The successive values of \<open>peak\<close> at the division of line 62.\<close>

fun peaks :: "real \<Rightarrow> real list \<Rightarrow> real list" where
  "peaks peak [] = []"
| "peaks peak (equity # rest) =
     (let peak' = (if equity > peak then equity else peak) in peak' # peaks peak' rest)"

definition calculateCAGR :: "real \<Rightarrow> real \<Rightarrow> real \<Rightarrow> real" where
  "calculateCAGR initial_equity final_equity years =
     (if initial_equity \<le> 0 \<or> final_equity \<le> 0 \<or> years \<le> 0 then 0
      else ((final_equity / initial_equity) powr (1 / years) - 1) * 100)"

subsection \<open>Equity path simulator (lines 76 to 96)\<close>

text \<open>
  At \<open>number_trades_in_forecast = 2147483647\<close> the sum of line 84 overflows to
  \<open>-2^31\<close>, and the vector constructor, given that negative size, throws
  \<open>std::length_error\<close> as for every other negative size. A series of more than
  \<open>2^31\<close> elements gives the distribution of line 86 an upper bound that is not
  \<open>size - 1\<close>.
\<close>

text \<open>The body of the loop of lines 88 to 92 at index \<open>i\<close>.\<close>

definition equity_step ::
  "real list \<Rightarrow> real \<Rightarrow> int \<Rightarrow> real list \<times> rng \<Rightarrow> nat \<Rightarrow> real list \<times> rng" where
  "equity_step trades fraction b = (\<lambda>(equity_curve, g) i.
     let (idx, g') = uniform_int b g;
         trade_return = trades ! nat idx * fraction * equity_curve ! (i - 1)
     in (equity_curve[i := equity_curve ! (i - 1) + trade_return], g'))"

definition make_one_equity_sequence ::
  "real list \<Rightarrow> real \<Rightarrow> int \<Rightarrow> real \<Rightarrow> rng \<Rightarrow> error + ((real list \<times> quotient) \<times> rng)" where
  "make_one_equity_sequence trades fraction number_trades_in_forecast initial_capital g =
     (let size = to_int32 (number_trades_in_forecast + 1) in
      if size < 0 then Inl Uncaught_Length_Error
      else if size = 0 then Inl Undefined_Out_Of_Bounds
      else
        let b = to_int32 (int (size_t_pred (length trades))) in
        if b < 0 then Inl Undefined_Distribution_Range
        else
          let zeros = replicate (nat size) 0;
              (equity_curve, g') =
                 foldl (equity_step trades fraction b)
                   (zeros[0 := initial_capital], g)
                   [1 ..< nat number_trades_in_forecast + 1]
          in case calculateDrawdown equity_curve of
               Inl e \<Rightarrow> Inl e
             | Inr max_drawdown \<Rightarrow> Inr ((equity_curve, max_drawdown), g'))"

subsection \<open>Drawdown tail estimator (lines 98 to 122)\<close>

fun exceed_loop ::
  "real list \<Rightarrow> real \<Rightarrow> int \<Rightarrow> real \<Rightarrow> real \<Rightarrow> nat \<Rightarrow> int \<Rightarrow> rng \<Rightarrow> error + (int \<times> rng)" where
  "exceed_loop trades fraction number_trades_in_forecast initial_capital
      drawdown_tolerance 0 count_exceed g = Inr (count_exceed, g)"
| "exceed_loop trades fraction number_trades_in_forecast initial_capital
      drawdown_tolerance (Suc k) count_exceed g =
     (case make_one_equity_sequence trades fraction number_trades_in_forecast
             initial_capital g of
        Inl e \<Rightarrow> Inl e
      | Inr ((equity, max_drawdown), g') \<Rightarrow>
          exceed_loop trades fraction number_trades_in_forecast initial_capital
            drawdown_tolerance k
            (if gt_double max_drawdown (Finite drawdown_tolerance)
             then count_exceed + 1 else count_exceed) g')"

definition analyze_distribution_of_drawdown ::
  "real list \<Rightarrow> real \<Rightarrow> int \<Rightarrow> real \<Rightarrow> real \<Rightarrow> int \<Rightarrow> rng \<Rightarrow> error + (quotient \<times> rng)" where
  "analyze_distribution_of_drawdown trades fraction number_trades_in_forecast
      initial_capital drawdown_tolerance number_equity_in_CDF g =
     (case exceed_loop trades fraction number_trades_in_forecast initial_capital
             drawdown_tolerance (nat number_equity_in_CDF) 0 g of
        Inl e \<Rightarrow> Inl e
      | Inr (count_exceed, g') \<Rightarrow>
          Inr (divide_double (real_of_int count_exceed)
                 (real_of_int number_equity_in_CDF), g'))"

subsection \<open>The repetition aggregator (lines 130 to 217)\<close>

text \<open>
  The bisection loop of lines 161 to 181. Its result is the final value of
  \<open>fraction\<close>, the number of iterations made and the generator.
\<close>

function bisection_loop ::
  "real list \<Rightarrow> int \<Rightarrow> real \<Rightarrow> real \<Rightarrow> real \<Rightarrow> int \<Rightarrow>
   bool \<Rightarrow> int \<Rightarrow> real \<Rightarrow> real \<Rightarrow> real \<Rightarrow> rng \<Rightarrow> error + (real \<times> int \<times> rng)" where
  "bisection_loop trades number_trades_in_forecast initial_capital tail_percentile
      drawdown_tolerance number_equity_in_CDF done iteration lower_bound upper_bound
      fraction g =
     (if \<not> done \<and> iteration < 1000 then
        let fraction' = (lower_bound + upper_bound) / 2 in
        case analyze_distribution_of_drawdown trades fraction' number_trades_in_forecast
               initial_capital drawdown_tolerance number_equity_in_CDF g of
          Inl e \<Rightarrow> Inl e
        | Inr (tail_risk, g') \<Rightarrow>
            if within_tolerance tail_risk (tail_percentile / 100) 0.003 then
              bisection_loop trades number_trades_in_forecast initial_capital
                tail_percentile drawdown_tolerance number_equity_in_CDF
                True (iteration + 1) lower_bound upper_bound fraction' g'
            else if gt_double tail_risk (Finite (tail_percentile / 100)) then
              bisection_loop trades number_trades_in_forecast initial_capital
                tail_percentile drawdown_tolerance number_equity_in_CDF
                False (iteration + 1) lower_bound fraction' fraction' g'
            else
              bisection_loop trades number_trades_in_forecast initial_capital
                tail_percentile drawdown_tolerance number_equity_in_CDF
                False (iteration + 1) fraction' upper_bound fraction' g'
      else Inr (fraction, iteration, g))"
  by pat_completeness auto
termination
  by (relation "measure (\<lambda>(trades, n, c, p, t, m, done, iteration, rest).
                   nat (1000 - iteration))") auto

declare bisection_loop.simps [simp del]

text \<open>The loop of lines 187 to 199 collecting one growth rate per simulated curve.\<close>

fun CAR_loop ::
  "real list \<Rightarrow> real \<Rightarrow> int \<Rightarrow> real \<Rightarrow> int \<Rightarrow> nat \<Rightarrow> real list \<Rightarrow> rng \<Rightarrow>
   error + (real list \<times> rng)" where
  "CAR_loop trades fraction number_trades_in_forecast initial_capital
      number_days_in_forecast 0 CAR_list g = Inr (CAR_list, g)"
| "CAR_loop trades fraction number_trades_in_forecast initial_capital
      number_days_in_forecast (Suc k) CAR_list g =
     (case make_one_equity_sequence trades fraction number_trades_in_forecast
             initial_capital g of
        Inl e \<Rightarrow> Inl e
      | Inr ((equity_curve, max_drawdown), g') \<Rightarrow>
          let years = real_of_int number_days_in_forecast / 252;
              CAGR = calculateCAGR initial_capital (last equity_curve) years
          in CAR_loop trades fraction number_trades_in_forecast initial_capital
               number_days_in_forecast k (CAR_list @ [CAGR]) g')"

text \<open>Lines 202 to 205: the 25th percentile of the collected growth rates.\<close>

definition CAR25_of :: "real list \<Rightarrow> error + real" where
  "CAR25_of CAR_list =
     (let sorted_list = sort CAR_list;
          index = size_t_pred (nat \<lceil>0.25 * real (length sorted_list)\<rceil>);
          index' = min index (size_t_pred (length sorted_list))
      in if index' < length sorted_list then Inr (sorted_list ! index')
         else Inl Undefined_Out_Of_Bounds)"

text \<open>The body of the loop over the repetitions, lines 150 to 206.\<close>

definition repetition ::
  "real list \<Rightarrow> int \<Rightarrow> int \<Rightarrow> real \<Rightarrow> real \<Rightarrow> real \<Rightarrow> int \<Rightarrow> rng \<Rightarrow>
   error + ((real \<times> real) \<times> rng)" where
  "repetition trades number_days_in_forecast number_trades_in_forecast initial_capital
      tail_percentile drawdown_tolerance number_equity_in_CDF g =
     (case bisection_loop trades number_trades_in_forecast initial_capital
             tail_percentile drawdown_tolerance number_equity_in_CDF
             False 0 0 10 1 g of
        Inl e \<Rightarrow> Inl e
      | Inr (fraction, iteration, g1) \<Rightarrow>
          (case CAR_loop trades fraction number_trades_in_forecast initial_capital
                  number_days_in_forecast (nat number_equity_in_CDF) [] g1 of
             Inl e \<Rightarrow> Inl e
           | Inr (CAR_list, g2) \<Rightarrow>
               (case CAR25_of CAR_list of
                  Inl e \<Rightarrow> Inl e
                | Inr CAR25 \<Rightarrow> Inr ((fraction, CAR25), g2))))"

fun repetition_loop ::
  "real list \<Rightarrow> int \<Rightarrow> int \<Rightarrow> real \<Rightarrow> real \<Rightarrow> real \<Rightarrow> int \<Rightarrow> nat \<Rightarrow>
   real list \<Rightarrow> real list \<Rightarrow> rng \<Rightarrow> error + (real list \<times> real list)" where
  "repetition_loop trades number_days_in_forecast number_trades_in_forecast
      initial_capital tail_percentile drawdown_tolerance number_equity_in_CDF
      0 safe_f_list CAR25_list g = Inr (safe_f_list, CAR25_list)"
| "repetition_loop trades number_days_in_forecast number_trades_in_forecast
      initial_capital tail_percentile drawdown_tolerance number_equity_in_CDF
      (Suc k) safe_f_list CAR25_list g =
     (case repetition trades number_days_in_forecast number_trades_in_forecast
             initial_capital tail_percentile drawdown_tolerance
             number_equity_in_CDF g of
        Inl e \<Rightarrow> Inl e
      | Inr ((fraction, CAR25), g') \<Rightarrow>
          repetition_loop trades number_days_in_forecast number_trades_in_forecast
            initial_capital tail_percentile drawdown_tolerance number_equity_in_CDF
            k (safe_f_list @ [fraction]) (CAR25_list @ [CAR25]) g')"

text \<open>The four output parameters of \<open>risk_normalization\<close>.\<close>

record results =
  safe_f_mean :: real
  safe_f_stdev :: real
  CAR25_mean :: real
  CAR25_stdev :: real

text \<open>
  The generator is local to \<open>risk_normalization\<close> and seeded from
  \<open>std::random_device\<close>: the stream it will produce is an argument of the model.
\<close>

definition risk_normalization ::
  "real list \<Rightarrow> int \<Rightarrow> int \<Rightarrow> real \<Rightarrow> real \<Rightarrow> real \<Rightarrow> int \<Rightarrow> int \<Rightarrow> rng \<Rightarrow>
   error + results" where
  "risk_normalization trades number_days_in_forecast number_trades_in_forecast
      initial_capital tail_percentile drawdown_tolerance number_equity_in_CDF
      number_repetitions g =
     (case repetition_loop trades number_days_in_forecast number_trades_in_forecast
             initial_capital tail_percentile drawdown_tolerance number_equity_in_CDF
             (nat number_repetitions) [] [] g of
        Inl e \<Rightarrow> Inl e
      | Inr (safe_f_list, CAR25_list) \<Rightarrow>
          let (sm, ss) = computeStatistics safe_f_list;
              (cm, cs) = computeStatistics CAR25_list
          in Inr \<lparr>safe_f_mean = sm, safe_f_stdev = ss, CAR25_mean = cm, CAR25_stdev = cs\<rparr>)"

subsection \<open>The program (lines 219 to 273)\<close>

text \<open>
  \<open>main\<close> after the file has been read: \<open>trades\<close> is what \<open>readTradesFromCSV\<close>
  returned. The result is the exit status and the statistics printed, if any.
\<close>

definition main_program :: "real list \<Rightarrow> rng \<Rightarrow> error + (int \<times> results option)" where
  "main_program trades g =
     (if trades = [] then Inr (1, None)
      else
        let number_of_years_in_CSV = 28;
            average_trades_per_year = real (length trades) / number_of_years_in_CSV;
            years_to_forecast = 2;
            number_days_in_forecast = \<lfloor>years_to_forecast * 252 :: real\<rfloor>;
            number_trades_in_forecast = \<lfloor>average_trades_per_year * years_to_forecast\<rfloor>
        in case risk_normalization trades number_days_in_forecast
                  number_trades_in_forecast 100000 5 0.10 10000 5 g of
             Inl e \<Rightarrow> Inl e
           | Inr r \<Rightarrow> Inr (0, Some r))"

subsection \<open>The drawdown as the specification words it\<close>

text \<open>
  The running peak at a point is the largest value of the curve up to and including that
  point; the relative decline at a point is \<open>(peak - equity) / peak\<close>; the drawdown of
  the specification is the largest relative decline over all points.
\<close>

definition running_peak :: "real list \<Rightarrow> nat \<Rightarrow> real" where
  "running_peak curve i = Max (set (take (Suc i) curve))"

definition relative_decline :: "real list \<Rightarrow> nat \<Rightarrow> real" where
  "relative_decline curve i = (running_peak curve i - curve ! i) / running_peak curve i"

definition max_relative_decline :: "real list \<Rightarrow> real" where
  "max_relative_decline curve = Max (relative_decline curve ` {..<length curve})"

section \<open>Auxiliary lemmas\<close>

subsection \<open>Sums, square roots and ranks\<close>

lemma foldl_plus_sum_list: "foldl (+) a xs = a + sum_list (xs :: real list)"
  by (induction xs arbitrary: a) simp_all

lemma foldl_squares_sum_list:
  "foldl (\<lambda>accum x. accum + (x - m) * (x - m)) a xs = a + (\<Sum>x\<leftarrow>xs. (x - m)\<^sup>2 :: real)"
  by (induction xs arbitrary: a) (simp_all add: power2_eq_square)

lemma sqrt_32_7_bounds: "(21375 / 10000) < sqrt (32 / 7) \<and> sqrt (32 / 7) < (21385 / 10000)"
proof
  show "(21375 / 10000) < sqrt (32 / 7)"
    by (rule real_less_rsqrt) (simp add: power2_eq_square)
  show "sqrt (32 / 7) < (21385 / 10000)"
    by (rule real_less_lsqrt) (simp_all add: power2_eq_square)
qed

lemma quarter_rank_bounds:
  assumes "0 < n"
  shows "1 \<le> nat \<lceil>0.25 * real n\<rceil>" and "nat \<lceil>0.25 * real n\<rceil> \<le> n"
proof -
  have "0 < \<lceil>0.25 * real n\<rceil>" using assms by simp
  then show "1 \<le> nat \<lceil>0.25 * real n\<rceil>" by linarith
  have "0.25 * real n \<le> real_of_int (int n)" by simp
  then have "\<lceil>0.25 * real n\<rceil> \<le> int n" by (simp only: ceiling_le_iff)
  then show "nat \<lceil>0.25 * real n\<rceil> \<le> n" by linarith
qed

lemma CAR25_of_rank:
  assumes ne: "CAR_list \<noteq> []"
  shows "CAR25_of CAR_list
           = Inr (sort CAR_list ! (nat \<lceil>0.25 * real (length CAR_list)\<rceil> - 1))"
proof -
  let ?n = "length CAR_list"
  let ?r = "nat \<lceil>0.25 * real ?n\<rceil>"
  from ne have pos: "0 < ?n" by simp
  note r = quarter_rank_bounds [OF pos]
  have "size_t_pred ?r = ?r - 1" "size_t_pred ?n = ?n - 1"
    using r(1) pos unfolding size_t_pred_def by presburger+
  moreover have "min (?r - 1) (?n - 1) = ?r - 1" "?r - 1 < ?n"
    using r by linarith+
  ultimately show ?thesis
    unfolding CAR25_of_def Let_def length_sort by presburger
qed

lemma CAR25_of_nonempty: "CAR_list \<noteq> [] \<Longrightarrow> \<exists>c. CAR25_of CAR_list = Inr c"
  using CAR25_of_rank by blast

subsection \<open>The drawdown loop\<close>

lemma length_peaks [simp]: "length (peaks p xs) = length xs"
  by (induction xs arbitrary: p) (simp_all add: Let_def)

lemma peaks_ge: "q \<in> set (peaks p xs) \<Longrightarrow> p \<le> q"
  by (induction xs arbitrary: p) (fastforce simp: Let_def split: if_splits)+

lemma peaks_nth:
  "i < length xs \<Longrightarrow> peaks p xs ! i = max p (Max (set (take (Suc i) xs)))"
proof (induction xs arbitrary: p i)
  case Nil
  then show ?case by simp
next
  case (Cons x xs)
  show ?case
  proof (cases i)
    case 0
    then show ?thesis by (simp add: Let_def max_def)
  next
    case (Suc j)
    with Cons.prems have j: "j < length xs" by simp
    have ne: "set (take (Suc j) xs) \<noteq> {}" using j by (cases xs) auto
    have "peaks p (x # xs) ! i = max (max p x) (Max (set (take (Suc j) xs)))"
      using Cons.IH [OF j] Suc by (simp add: Let_def max_def)
    also have "\<dots> = max p (Max (insert x (set (take (Suc j) xs))))"
      using ne by (simp add: max.assoc)
    finally show ?thesis using Suc by simp
  qed
qed

lemma peaks_running_peak:
  assumes "i < length curve"
  shows "peaks (hd curve) curve ! i = running_peak curve i"
proof -
  from assms obtain x xs where c: "curve = x # xs" by (cases curve) auto
  have "x \<le> Max (set (take (Suc i) curve))" unfolding c by simp
  then show ?thesis
    using peaks_nth [OF assms, of "hd curve"] by (simp add: running_peak_def c max_def)
qed

lemma drawdown_loop_step:
  "drawdown_loop p m (x # xs) =
     drawdown_loop (if x > p then x else p)
       (if gt_double (divide_double ((if x > p then x else p) - x) (if x > p then x else p)) m
        then divide_double ((if x > p then x else p) - x) (if x > p then x else p) else m) xs"
  by (simp add: Let_def)

text \<open>The loop as a fold of max over the declines, when no peak is zero.\<close>

lemma drawdown_loop_fold:
  "0 \<notin> set (peaks p xs) \<Longrightarrow>
   drawdown_loop p (Finite m) xs
     = Finite (foldl max m (map2 (\<lambda>pk e. (pk - e) / pk) (peaks p xs) xs))"
proof (induction xs arbitrary: p m)
  case Nil
  then show ?case by simp
next
  case (Cons x xs)
  define q where "q = (if x > p then x else p)"
  have pk: "peaks p (x # xs) = q # peaks q xs"
    by (simp add: q_def Let_def)
  with Cons.prems have nz: "q \<noteq> 0" and rest: "0 \<notin> set (peaks q xs)"
    by auto
  have "drawdown_loop p (Finite m) (x # xs)
          = drawdown_loop q (Finite (max m ((q - x) / q))) xs"
    using nz by (simp add: drawdown_loop_step q_def [symmetric] divide_double_def max_def)
  also note Cons.IH [OF rest]
  finally have loop: "drawdown_loop p (Finite m) (x # xs)
      = Finite (foldl max (max m ((q - x) / q))
                  (map2 (\<lambda>pk e. (pk - e) / pk) (peaks q xs) xs))" .
  have "foldl max m (map2 (\<lambda>pk e. (pk - e) / pk) (peaks p (x # xs)) (x # xs))
      = foldl max (max m ((q - x) / q)) (map2 (\<lambda>pk e. (pk - e) / pk) (peaks q xs) xs)"
    unfolding pk by simp
  then show ?case using loop by (simp only:)
qed

lemma foldl_max_Max: "foldl max m ys = Max (insert (m :: real) (set ys))"
proof (induction ys arbitrary: m)
  case Nil
  then show ?case by simp
next
  case (Cons y ys)
  have "Max (insert (max m y) (set ys)) = Max (insert m (insert y (set ys)))"
    by (cases "set ys = {}") (simp_all add: max.assoc)
  then show ?case using Cons.IH by simp
qed

lemma set_map2_nth:
  "length ps = length xs \<Longrightarrow>
   set (map2 f ps xs) = (\<lambda>i. f (ps ! i) (xs ! i)) ` {..<length xs}"
proof (induction ps xs rule: list_induct2)
  case Nil
  then show ?case by simp
next
  case (Cons p ps x xs)
  have "{..<Suc (length xs)} = insert 0 (Suc ` {..<length xs})"
    by (auto simp: lessThan_Suc_eq_insert_0)
  then show ?case using Cons.IH by (simp add: image_image)
qed

lemma drawdown_max_relative_decline:
  assumes ne: "curve \<noteq> []" and nz: "\<forall>i<length curve. running_peak curve i \<noteq> 0"
  shows "calculateDrawdown curve = Inr (Finite (max_relative_decline curve))"
proof -
  let ?ps = "peaks (hd curve) curve"
  let ?f = "\<lambda>pk e :: real. (pk - e) / pk"
  have pk: "?ps ! i = running_peak curve i" if "i < length curve" for i
    using that by (rule peaks_running_peak)
  have "0 \<notin> set ?ps"
    using nz pk by (auto simp: set_conv_nth)
  then have loop: "drawdown_loop (hd curve) (Finite 0) curve
                     = Finite (Max (insert 0 (set (map2 ?f ?ps curve))))"
    by (simp add: drawdown_loop_fold foldl_max_Max)
  have "set (map2 ?f ?ps curve) = (\<lambda>i. ?f (?ps ! i) (curve ! i)) ` {..<length curve}"
    by (rule set_map2_nth) simp
  also have "\<dots> = relative_decline curve ` {..<length curve}"
    by (rule image_cong) (simp_all add: relative_decline_def pk)
  finally have S: "set (map2 ?f ?ps curve) = relative_decline curve ` {..<length curve}" .
  have "running_peak curve 0 = curve ! 0"
    using ne by (cases curve) (simp_all add: running_peak_def)
  then have "relative_decline curve 0 = 0"
    by (simp add: relative_decline_def)
  moreover have "0 < length curve" using ne by simp
  ultimately have "0 \<in> relative_decline curve ` {..<length curve}"
    by (metis imageI lessThan_iff)
  then have "insert 0 (relative_decline curve ` {..<length curve})
               = relative_decline curve ` {..<length curve}"
    by blast
  with loop S show ?thesis
    using ne by (cases curve) (simp_all add: calculateDrawdown_def max_relative_decline_def)
qed

lemma drawdown_loop_nondecreasing:
  "sorted xs \<Longrightarrow> (\<forall>x\<in>set xs. p \<le> x) \<Longrightarrow>
   drawdown_loop p (Finite 0) xs = Finite 0"
proof (induction xs arbitrary: p)
  case Nil
  then show ?case by simp
next
  case (Cons x xs)
  from Cons.prems have px: "(if x > p then x else p) = x" by auto
  have dd: "divide_double (x - x) x = Finite 0 \<or> divide_double (x - x) x = NaN"
    by (simp add: divide_double_def)
  have "drawdown_loop p (Finite 0) (x # xs) = drawdown_loop x (Finite 0) xs"
    unfolding drawdown_loop_step px using dd by auto
  moreover have "drawdown_loop x (Finite 0) xs = Finite 0"
    using Cons.prems by (intro Cons.IH) auto
  ultimately show ?case by simp
qed

lemma drawdown_nondecreasing:
  "curve \<noteq> [] \<Longrightarrow> sorted curve \<Longrightarrow> calculateDrawdown curve = Inr (Finite 0)"
  by (cases curve) (auto simp: calculateDrawdown_def intro!: drawdown_loop_nondecreasing simp del: drawdown_loop.simps)

text \<open>With a positive peak the drawdown is a real number that does not decrease.\<close>

lemma drawdown_loop_positive_peak:
  "0 < p \<Longrightarrow> 0 \<le> m \<Longrightarrow> \<exists>d. drawdown_loop p (Finite m) xs = Finite d \<and> m \<le> d"
proof (induction xs arbitrary: p m)
  case Nil
  then show ?case by simp
next
  case (Cons x xs)
  define q where "q = (if x > p then x else p)"
  define m' where "m' = max m ((q - x) / q)"
  from Cons.prems have p: "0 < q" by (auto simp: q_def)
  have step: "drawdown_loop p (Finite m) (x # xs) = drawdown_loop q (Finite m') xs"
    using p by (simp add: drawdown_loop_step q_def [symmetric] m'_def divide_double_def max_def)
  have m: "0 \<le> m'" using Cons.prems by (simp add: m'_def max_def)
  from Cons.IH [OF p m] obtain d where
    d: "drawdown_loop q (Finite m') xs = Finite d" "m' \<le> d"
    by blast
  have "m \<le> d" using d(2) by (simp add: m'_def max_def split: if_splits)
  then show ?case using step d(1) by simp
qed

subsection \<open>The simulated curve\<close>

text \<open>
  A draw lies in the range of the distribution, and every index of the range is the
  draw of some generator.
\<close>

lemma uniform_int_range:
  "0 \<le> b \<Longrightarrow> 0 \<le> fst (uniform_int b g) \<and> fst (uniform_int b g) \<le> b"
proof -
  assume b: "0 \<le> b"
  then have "shd g mod nat (b + 1) < nat (b + 1)" by simp
  with b show ?thesis unfolding uniform_int_def fst_conv by linarith
qed

lemma uniform_int_any:
  "0 \<le> k \<Longrightarrow> k \<le> b \<Longrightarrow> uniform_int b (nat k ## g) = (k, g)"
  by (simp add: uniform_int_def)

lemma equity_step_eq:
  "equity_step trades fraction b (curve, g) i =
     (curve[i := curve ! (i - 1)
                 + trades ! (shd g mod nat (b + 1)) * fraction * curve ! (i - 1)],
      stl g)"
  by (simp add: equity_step_def uniform_int_def)

lemma equity_fold:
  assumes "n < length c0"
  shows "\<exists>curve.
     foldl (equity_step trades fraction b) (c0, g) [1 ..< Suc n] = (curve, sdrop n g) \<and>
     length curve = length c0 \<and> curve ! 0 = c0 ! 0 \<and>
     (\<forall>i. 1 \<le> i \<and> i \<le> n \<longrightarrow>
        curve ! i = curve ! (i - 1)
          + trades ! (g !! (i - 1) mod nat (b + 1)) * fraction * curve ! (i - 1)) \<and>
     (\<forall>j. n < j \<longrightarrow> curve ! j = c0 ! j)"
  using assms
proof (induction n)
  case 0
  then show ?case by simp
next
  case (Suc n)
  then have "n < length c0" by simp
  from Suc.IH [OF this] obtain curve where
    fold: "foldl (equity_step trades fraction b) (c0, g) [1 ..< Suc n] = (curve, sdrop n g)"
    and len: "length curve = length c0" and c0: "curve ! 0 = c0 ! 0"
    and rec: "\<And>i. 1 \<le> i \<and> i \<le> n \<Longrightarrow>
        curve ! i = curve ! (i - 1)
          + trades ! (g !! (i - 1) mod nat (b + 1)) * fraction * curve ! (i - 1)"
    and rest: "\<And>j. n < j \<Longrightarrow> curve ! j = c0 ! j"
    by blast
  define v where
    "v = curve ! n + trades ! (g !! n mod nat (b + 1)) * fraction * curve ! n"
  define curve' where "curve' = curve[Suc n := v]"
  have "foldl (equity_step trades fraction b) (c0, g) ([1 ..< Suc n] @ [Suc n])
               = equity_step trades fraction b (curve, sdrop n g) (Suc n)"
    using fold by (simp del: upt_Suc)
  then have "foldl (equity_step trades fraction b) (c0, g) [1 ..< Suc (Suc n)]
               = equity_step trades fraction b (curve, sdrop n g) (Suc n)"
    by (simp del: foldl_append)
  also have "\<dots> = (curve', sdrop (Suc n) g)"
    unfolding equity_step_eq curve'_def v_def by simp
  finally have fold': "foldl (equity_step trades fraction b) (c0, g) [1 ..< Suc (Suc n)]
               = (curve', sdrop (Suc n) g)" .
  have sn: "Suc n < length curve" using Suc.prems len by simp
  have old: "curve' ! i = curve ! i" if "i \<noteq> Suc n" for i
    using that by (simp add: curve'_def)
  have new: "curve' ! Suc n = v"
    using sn by (simp add: curve'_def)
  have "curve' ! i = curve' ! (i - 1)
          + trades ! (g !! (i - 1) mod nat (b + 1)) * fraction * curve' ! (i - 1)"
    if "1 \<le> i \<and> i \<le> Suc n" for i
  proof (cases "i = Suc n")
    case True
    then show ?thesis using new old [of n] by (simp add: v_def)
  next
    case False
    with that have r: "1 \<le> i \<and> i \<le> n" by simp
    then have "i - 1 \<noteq> Suc n" by linarith
    from old [OF False] old [OF this] rec [OF r] show ?thesis by (simp only:)
  qed
  moreover have "curve' ! j = c0 ! j" if "Suc n < j" for j
    using that old [of j] rest [of j] by simp
  moreover have "length curve' = length c0" by (simp add: curve'_def len)
  moreover have "curve' ! 0 = c0 ! 0" using old [of 0] c0 by simp
  ultimately show ?case using fold' by blast
qed

lemma to_int32_in_range:
  "- 2147483648 \<le> x \<Longrightarrow> x < 2147483648 \<Longrightarrow> to_int32 x = x"
  by (simp add: to_int32_def)

lemma calculateDrawdown_nonempty:
  "curve \<noteq> [] \<Longrightarrow> calculateDrawdown curve = Inr (drawdown_loop (hd curve) (Finite 0) curve)"
  by (cases curve) (simp_all add: calculateDrawdown_def del: drawdown_loop.simps)

lemma make_one_equity_sequence_curve:
  assumes ne: "trades \<noteq> [] \<and> length trades \<le> 2147483648"
    and N: "0 \<le> number_trades_in_forecast \<and> number_trades_in_forecast < 2147483647"
  shows "\<exists>curve.
     make_one_equity_sequence trades fraction number_trades_in_forecast initial_capital g
       = Inr ((curve, drawdown_loop initial_capital (Finite 0) curve),
              sdrop (nat number_trades_in_forecast) g) \<and>
     length curve = nat number_trades_in_forecast + 1 \<and>
     curve ! 0 = initial_capital \<and>
     (\<forall>i. 1 \<le> i \<and> i \<le> nat number_trades_in_forecast \<longrightarrow>
        g !! (i - 1) mod length trades < length trades \<and>
        curve ! i = curve ! (i - 1)
          + trades ! (g !! (i - 1) mod length trades) * fraction * curve ! (i - 1))"
proof -
  define n where "n = nat number_trades_in_forecast"
  define c0 where "c0 = initial_capital # replicate n (0 :: real)"
  define b where "b = int (length trades) - 1"
  have b: "\<not> b < 0" "nat (b + 1) = length trades"
    using ne by (simp_all add: b_def Suc_leI)
  have len0: "n < length c0" by (simp add: c0_def)
  from equity_fold [OF len0, of trades fraction b g] obtain curve where
    fold: "foldl (equity_step trades fraction b) (c0, g) [1 ..< Suc n] = (curve, sdrop n g)"
    and len: "length curve = length c0" and cz: "curve ! 0 = c0 ! 0"
    and rec: "\<And>i. 1 \<le> i \<and> i \<le> n \<Longrightarrow>
        curve ! i = curve ! (i - 1)
          + trades ! (g !! (i - 1) mod nat (b + 1)) * fraction * curve ! (i - 1)"
    by blast
  have len': "length curve = n + 1" using len by (simp add: c0_def)
  then have cne: "curve \<noteq> []" by auto
  have c0': "curve ! 0 = initial_capital" using cz by (simp add: c0_def)
  then have hd: "hd curve = initial_capital" using cne by (simp add: hd_conv_nth)
  have nat1: "nat (number_trades_in_forecast + 1) = Suc n"
    using N by (simp add: n_def nat_add_distrib)
  have size: "to_int32 (number_trades_in_forecast + 1) = number_trades_in_forecast + 1"
    using N by (intro to_int32_in_range) simp_all
  have "int (size_t_pred (length trades)) = b"
    using ne by (simp add: size_t_pred_def b_def of_nat_diff Suc_leI)
  moreover have "to_int32 b = b"
    using ne by (intro to_int32_in_range) (simp_all add: b_def)
  ultimately have bound: "to_int32 (int (size_t_pred (length trades))) = b" by simp
  have "make_one_equity_sequence trades fraction number_trades_in_forecast initial_capital g
      = Inr ((curve, drawdown_loop initial_capital (Finite 0) curve), sdrop n g)"
    using N b(1) fold
    by (simp add: make_one_equity_sequence_def Let_def size bound nat1
          n_def [symmetric] c0_def [symmetric] calculateDrawdown_nonempty [OF cne] hd
          del: drawdown_loop.simps upt_Suc)
  moreover have "g !! (i - 1) mod length trades < length trades" for i
    using ne by simp
  ultimately show ?thesis
    using len' c0' rec unfolding b(2) n_def [symmetric] by blast
qed

subsection \<open>The tail estimator and the bisection\<close>

lemma exceed_loop_runs:
  assumes "trades \<noteq> [] \<and> length trades \<le> 2147483648"
    and "0 \<le> number_trades_in_forecast \<and> number_trades_in_forecast < 2147483647"
  shows "\<exists>c g'. exceed_loop trades fraction number_trades_in_forecast initial_capital
                   drawdown_tolerance k count_exceed g = Inr (c, g') \<and>
                count_exceed \<le> c \<and> c \<le> count_exceed + int k"
proof (induction k arbitrary: count_exceed g)
  case 0
  then show ?case by simp
next
  case (Suc k)
  from make_one_equity_sequence_curve [OF assms, of fraction initial_capital g]
  obtain curve dd g1 where
    one: "make_one_equity_sequence trades fraction number_trades_in_forecast
            initial_capital g = Inr ((curve, dd), g1)"
    by blast
  define c1 where
    "c1 = (if gt_double dd (Finite drawdown_tolerance) then count_exceed + 1 else count_exceed)"
  from Suc.IH [of c1 g1] obtain c g' where
    rest: "exceed_loop trades fraction number_trades_in_forecast initial_capital
             drawdown_tolerance k c1 g1 = Inr (c, g')"
    and bounds: "c1 \<le> c" "c \<le> c1 + int k"
    by blast
  have "exceed_loop trades fraction number_trades_in_forecast initial_capital
          drawdown_tolerance (Suc k) count_exceed g = Inr (c, g')"
    using one rest by (simp add: c1_def)
  moreover have "count_exceed \<le> c" "c \<le> count_exceed + int (Suc k)"
    using bounds by (simp_all add: c1_def split: if_splits)
  ultimately show ?case by blast
qed

lemma analyze_distribution_of_drawdown_runs:
  assumes "trades \<noteq> [] \<and> length trades \<le> 2147483648"
    and "0 \<le> number_trades_in_forecast \<and> number_trades_in_forecast < 2147483647"
    and "0 < number_equity_in_CDF"
  shows "\<exists>t g'. analyze_distribution_of_drawdown trades fraction number_trades_in_forecast
                   initial_capital drawdown_tolerance number_equity_in_CDF g
                 = Inr (Finite t, g') \<and> 0 \<le> t \<and> t \<le> 1"
proof -
  from exceed_loop_runs [OF assms(1,2), of fraction initial_capital drawdown_tolerance
      "nat number_equity_in_CDF" 0 g]
  obtain c g' where
    loop: "exceed_loop trades fraction number_trades_in_forecast initial_capital
             drawdown_tolerance (nat number_equity_in_CDF) 0 g = Inr (c, g')"
    and c: "0 \<le> c" "c \<le> int (nat number_equity_in_CDF)"
    by auto
  define t where "t = real_of_int c / real_of_int number_equity_in_CDF"
  have "analyze_distribution_of_drawdown trades fraction number_trades_in_forecast
          initial_capital drawdown_tolerance number_equity_in_CDF g = Inr (Finite t, g')"
    using loop assms(3)
    by (simp add: analyze_distribution_of_drawdown_def divide_double_def t_def)
  moreover have "0 \<le> t" "t \<le> 1"
    using c assms(3) by (simp_all add: t_def)
  ultimately show ?thesis by blast
qed

lemma bisection_loop_bounds:
  assumes "trades \<noteq> [] \<and> length trades \<le> 2147483648"
    and "0 \<le> number_trades_in_forecast \<and> number_trades_in_forecast < 2147483647"
    and "0 < number_equity_in_CDF"
    and "0 \<le> lower_bound" and "lower_bound \<le> upper_bound" and "upper_bound \<le> 10"
    and "0 \<le> fraction" and "fraction \<le> 10" and "iteration \<le> 1000"
  shows "\<exists>f it g'.
     bisection_loop trades number_trades_in_forecast initial_capital tail_percentile
       drawdown_tolerance number_equity_in_CDF done iteration lower_bound upper_bound
       fraction g = Inr (f, it, g') \<and>
     0 \<le> f \<and> f \<le> 10 \<and> iteration \<le> it \<and> it \<le> 1000 \<and>
     (\<not> done \<and> iteration < 1000 \<longrightarrow> iteration < it)"
  using assms
proof (induction trades number_trades_in_forecast initial_capital tail_percentile
    drawdown_tolerance number_equity_in_CDF "done" iteration lower_bound upper_bound
    fraction g rule: bisection_loop.induct)
  case (1 trades N cap tp tol m fin iteration lo hi fraction g)
  show ?case
  proof (cases "\<not> fin \<and> iteration < 1000")
    case False
    then have "bisection_loop trades N cap tp tol m fin iteration lo hi fraction g
                 = Inr (fraction, iteration, g)"
      by (subst bisection_loop.simps) (simp only: if_False)
    with "1.prems" False show ?thesis by simp
  next
    case True
    define f' where "f' = (lo + hi) / 2"
    have f': "lo \<le> f'" "f' \<le> hi" "0 \<le> f'" "f' \<le> 10"
      using "1.prems" by (simp_all add: f'_def)
    from analyze_distribution_of_drawdown_runs [OF "1.prems"(1,2,3), of f' cap tol g]
    obtain t g1 where
      an: "analyze_distribution_of_drawdown trades f' N cap tol m g = Inr (Finite t, g1)"
      by blast
    have it: "iteration + 1 \<le> 1000" using True by simp
    note pre = "1.prems"(1,2,3)
    consider (close) "within_tolerance (Finite t) (tp / 100) (3 / 10 ^ 3)"
      | (above) "\<not> within_tolerance (Finite t) (tp / 100) (3 / 10 ^ 3)"
                "gt_double (Finite t) (Finite (tp / 100))"
      | (below) "\<not> within_tolerance (Finite t) (tp / 100) (3 / 10 ^ 3)"
                "\<not> gt_double (Finite t) (Finite (tp / 100))"
      by blast
    then show ?thesis
    proof cases
      case close
      have step: "bisection_loop trades N cap tp tol m fin iteration lo hi fraction g
          = bisection_loop trades N cap tp tol m True (iteration + 1) lo hi f' g1"
        using True an close by (subst bisection_loop.simps) (simp add: f'_def Let_def)
      from "1.IH"(1) [OF True f'_def an [symmetric, THEN sym] refl close pre
          "1.prems"(4,5,6) f'(3,4) it]
      show ?thesis unfolding step using True by force
    next
      case above
      have step: "bisection_loop trades N cap tp tol m fin iteration lo hi fraction g
          = bisection_loop trades N cap tp tol m False (iteration + 1) lo f' f' g1"
        using True an above by (subst bisection_loop.simps) (simp add: f'_def Let_def)
      from "1.IH"(2) [OF True f'_def an [symmetric, THEN sym] refl above pre
          "1.prems"(4) f'(1,4,3,4) it]
      show ?thesis unfolding step using True by force
    next
      case below
      have step: "bisection_loop trades N cap tp tol m fin iteration lo hi fraction g
          = bisection_loop trades N cap tp tol m False (iteration + 1) f' hi f' g1"
        using True an below by (subst bisection_loop.simps) (simp add: f'_def Let_def)
      from "1.IH"(3) [OF True f'_def an [symmetric, THEN sym] refl below pre
          f'(3,2) "1.prems"(6) f'(3,4) it]
      show ?thesis unfolding step using True by force
    qed
  qed
qed

lemma CAR_loop_runs:
  assumes "trades \<noteq> [] \<and> length trades \<le> 2147483648"
    and "0 \<le> number_trades_in_forecast \<and> number_trades_in_forecast < 2147483647"
  shows "\<exists>l g'. CAR_loop trades fraction number_trades_in_forecast initial_capital
                   number_days_in_forecast k CAR_list g = Inr (l, g') \<and>
                length l = length CAR_list + k"
proof (induction k arbitrary: CAR_list g)
  case 0
  then show ?case by simp
next
  case (Suc k)
  from make_one_equity_sequence_curve [OF assms, of fraction initial_capital g]
  obtain curve dd g1 where
    one: "make_one_equity_sequence trades fraction number_trades_in_forecast
            initial_capital g = Inr ((curve, dd), g1)"
    by blast
  define CAGR where
    "CAGR = calculateCAGR initial_capital (last curve)
              (real_of_int number_days_in_forecast / 252)"
  from Suc.IH [of "CAR_list @ [CAGR]" g1] obtain l g' where
    rest: "CAR_loop trades fraction number_trades_in_forecast initial_capital
             number_days_in_forecast k (CAR_list @ [CAGR]) g1 = Inr (l, g')"
    and len: "length l = length (CAR_list @ [CAGR]) + k"
    by blast
  have "CAR_loop trades fraction number_trades_in_forecast initial_capital
          number_days_in_forecast (Suc k) CAR_list g = Inr (l, g')"
    using one rest by (simp add: CAGR_def Let_def)
  with len show ?case by simp
qed

lemma repetition_runs:
  assumes "trades \<noteq> [] \<and> length trades \<le> 2147483648"
    and "0 \<le> number_trades_in_forecast \<and> number_trades_in_forecast < 2147483647"
    and "0 < number_equity_in_CDF"
  shows "\<exists>fraction iteration g1 CAR25 g2.
     bisection_loop trades number_trades_in_forecast initial_capital tail_percentile
       drawdown_tolerance number_equity_in_CDF False 0 0 10 1 g
       = Inr (fraction, iteration, g1) \<and>
     1 \<le> iteration \<and> iteration \<le> 1000 \<and> 0 \<le> fraction \<and> fraction \<le> 10 \<and>
     repetition trades number_days_in_forecast number_trades_in_forecast initial_capital
       tail_percentile drawdown_tolerance number_equity_in_CDF g
       = Inr ((fraction, CAR25), g2)"
proof -
  from bisection_loop_bounds [OF assms, of 0 10 1 0 initial_capital tail_percentile
      drawdown_tolerance False g]
  obtain f it g1 where
    bis: "bisection_loop trades number_trades_in_forecast initial_capital tail_percentile
            drawdown_tolerance number_equity_in_CDF False 0 0 10 1 g = Inr (f, it, g1)"
    and bounds: "0 \<le> f" "f \<le> 10" "it \<le> 1000" "0 < it"
    by auto
  from CAR_loop_runs [OF assms(1,2), of f initial_capital number_days_in_forecast
      "nat number_equity_in_CDF" "[]" g1]
  obtain l g2 where
    cars: "CAR_loop trades f number_trades_in_forecast initial_capital
             number_days_in_forecast (nat number_equity_in_CDF) [] g1 = Inr (l, g2)"
    and len: "length l = nat number_equity_in_CDF"
    by auto
  from len assms(3) have "l \<noteq> []" by auto
  from CAR25_of_nonempty [OF this] obtain c where c: "CAR25_of l = Inr c" by blast
  have "repetition trades number_days_in_forecast number_trades_in_forecast initial_capital
          tail_percentile drawdown_tolerance number_equity_in_CDF g = Inr ((f, c), g2)"
    using bis cars c by (simp add: repetition_def)
  moreover from bounds(4) have "1 \<le> it" by simp
  ultimately show ?thesis using bis bounds by blast
qed

lemma repetition_loop_runs:
  assumes "trades \<noteq> [] \<and> length trades \<le> 2147483648"
    and "0 \<le> number_trades_in_forecast \<and> number_trades_in_forecast < 2147483647"
    and "0 < number_equity_in_CDF"
  shows "\<forall>f\<in>set safe_f_list. 0 \<le> f \<and> f \<le> 10 \<Longrightarrow>
     \<exists>fs cs.
       repetition_loop trades number_days_in_forecast number_trades_in_forecast
         initial_capital tail_percentile drawdown_tolerance number_equity_in_CDF
         k safe_f_list CAR25_list g = Inr (fs, cs) \<and>
       length fs = length safe_f_list + k \<and>
       (\<forall>f\<in>set fs. 0 \<le> f \<and> f \<le> 10)"
proof (induction k arbitrary: safe_f_list CAR25_list g)
  case 0
  then show ?case by simp
next
  case (Suc k)
  from repetition_runs [OF assms, of initial_capital tail_percentile drawdown_tolerance g
      number_days_in_forecast]
  obtain f c g2 where
    one: "repetition trades number_days_in_forecast number_trades_in_forecast
            initial_capital tail_percentile drawdown_tolerance number_equity_in_CDF g
          = Inr ((f, c), g2)"
    and f: "0 \<le> f" "f \<le> 10"
    by blast
  from Suc.prems f have "\<forall>x\<in>set (safe_f_list @ [f]). 0 \<le> x \<and> x \<le> 10" by auto
  from Suc.IH [OF this, of "CAR25_list @ [c]" g2] obtain fs cs where
    rest: "repetition_loop trades number_days_in_forecast number_trades_in_forecast
             initial_capital tail_percentile drawdown_tolerance number_equity_in_CDF
             k (safe_f_list @ [f]) (CAR25_list @ [c]) g2 = Inr (fs, cs)"
    and len: "length fs = length (safe_f_list @ [f]) + k"
    and all: "\<forall>x\<in>set fs. 0 \<le> x \<and> x \<le> 10"
    by blast
  have "repetition_loop trades number_days_in_forecast number_trades_in_forecast
          initial_capital tail_percentile drawdown_tolerance number_equity_in_CDF
          (Suc k) safe_f_list CAR25_list g = Inr (fs, cs)"
    using one rest by simp
  with len all show ?case by simp
qed

subsection \<open>Risk fraction zero\<close>

lemma constant_curve:
  assumes len: "length curve = Suc n" and c0: "curve ! 0 = c"
    and rec: "\<And>i. 1 \<le> i \<and> i \<le> n \<Longrightarrow> curve ! i = curve ! (i - 1)"
  shows "curve = replicate (Suc n) c"
proof -
  have "i \<le> n \<Longrightarrow> curve ! i = c" for i
  proof (induction i)
    case 0
    then show ?case by (simp add: c0)
  next
    case (Suc i)
    then show ?case using rec [of "Suc i"] by simp
  qed
  then show ?thesis
    using len by (intro nth_equalityI) (simp_all add: less_Suc_eq_le del: replicate.simps)
qed

lemma make_one_equity_sequence_fraction_0:
  assumes "trades \<noteq> [] \<and> length trades \<le> 2147483648"
    and "0 \<le> number_trades_in_forecast \<and> number_trades_in_forecast < 2147483647"
  shows "make_one_equity_sequence trades 0 number_trades_in_forecast initial_capital g
           = Inr ((replicate (nat number_trades_in_forecast + 1) initial_capital, Finite 0),
                  sdrop (nat number_trades_in_forecast) g)"
proof -
  from make_one_equity_sequence_curve [OF assms, of 0 initial_capital g]
  obtain curve where
    run: "make_one_equity_sequence trades 0 number_trades_in_forecast initial_capital g
       = Inr ((curve, drawdown_loop initial_capital (Finite 0) curve),
              sdrop (nat number_trades_in_forecast) g)"
    and len: "length curve = nat number_trades_in_forecast + 1"
    and c0: "curve ! 0 = initial_capital"
    and rec: "\<And>i. 1 \<le> i \<and> i \<le> nat number_trades_in_forecast \<Longrightarrow>
        curve ! i = curve ! (i - 1)
          + trades ! (g !! (i - 1) mod length trades) * 0 * curve ! (i - 1)"
    by blast
  have "curve = replicate (Suc (nat number_trades_in_forecast)) initial_capital"
    using len c0 rec by (intro constant_curve) simp_all
  moreover have "drawdown_loop initial_capital (Finite 0)
                   (replicate (Suc (nat number_trades_in_forecast)) initial_capital) = Finite 0"
    by (rule drawdown_loop_nondecreasing) (simp_all add: sorted_replicate del: replicate.simps)
  ultimately show ?thesis using run by simp
qed

lemma exceed_loop_fraction_0:
  assumes "trades \<noteq> [] \<and> length trades \<le> 2147483648"
    and "0 \<le> number_trades_in_forecast \<and> number_trades_in_forecast < 2147483647" and "0 \<le> drawdown_tolerance"
  shows "exceed_loop trades 0 number_trades_in_forecast initial_capital
           drawdown_tolerance k count_exceed g
         = Inr (count_exceed, sdrop (k * nat number_trades_in_forecast) g)"
proof (induction k arbitrary: g)
  case 0
  then show ?case by simp
next
  case (Suc k)
  show ?case
    using assms(3)
    by (simp add: make_one_equity_sequence_fraction_0 [OF assms(1,2)] Suc.IH add.commute
          del: replicate.simps)
qed

lemma analyze_fraction_0:
  assumes "trades \<noteq> [] \<and> length trades \<le> 2147483648"
    and "0 \<le> number_trades_in_forecast \<and> number_trades_in_forecast < 2147483647"
    and "0 \<le> drawdown_tolerance" and "0 < number_equity_in_CDF"
  shows "analyze_distribution_of_drawdown trades 0 number_trades_in_forecast
           initial_capital drawdown_tolerance number_equity_in_CDF g
         = Inr (Finite 0,
                sdrop (nat number_equity_in_CDF * nat number_trades_in_forecast) g)"
  using assms(4)
  by (simp add: analyze_distribution_of_drawdown_def exceed_loop_fraction_0 [OF assms(1,2,3)]
        divide_double_def)

subsection \<open>Curves from a positive capital\<close>

lemma simulated_drawdown:
  assumes "trades \<noteq> [] \<and> length trades \<le> 2147483648"
    and "0 \<le> number_trades_in_forecast \<and> number_trades_in_forecast < 2147483647"
    and "0 < initial_capital"
  shows "\<exists>curve d g'.
     make_one_equity_sequence trades fraction number_trades_in_forecast initial_capital g
       = Inr ((curve, Finite d), g') \<and>
     0 \<le> d \<and>
     d = foldl max 0 (map2 (\<lambda>peak equity. (peak - equity) / peak)
                        (peaks (hd curve) curve) curve) \<and>
     (\<forall>p\<in>set (peaks (hd curve) curve). initial_capital \<le> p)"
proof -
  from make_one_equity_sequence_curve [OF assms(1,2), of fraction initial_capital g]
  obtain curve where
    run: "make_one_equity_sequence trades fraction number_trades_in_forecast initial_capital g
       = Inr ((curve, drawdown_loop initial_capital (Finite 0) curve),
              sdrop (nat number_trades_in_forecast) g)"
    and len: "length curve = nat number_trades_in_forecast + 1"
    and c0: "curve ! 0 = initial_capital"
    by blast
  from len have ne: "curve \<noteq> []" by auto
  with c0 have hd: "hd curve = initial_capital" by (simp add: hd_conv_nth)
  from drawdown_loop_positive_peak [OF assms(3), of 0 curve] obtain d where
    d: "drawdown_loop initial_capital (Finite 0) curve = Finite d" "0 \<le> d"
    by auto
  have pk: "\<forall>p\<in>set (peaks (hd curve) curve). initial_capital \<le> p"
    unfolding hd using peaks_ge by blast
  with assms(3) have "0 \<notin> set (peaks initial_capital curve)"
    unfolding hd by force
  from drawdown_loop_fold [OF this, of 0] d(1)
  have "d = foldl max 0 (map2 (\<lambda>peak equity. (peak - equity) / peak)
                           (peaks (hd curve) curve) curve)"
    unfolding hd by simp
  moreover from run d(1)
  have "make_one_equity_sequence trades fraction number_trades_in_forecast initial_capital g
          = Inr ((curve, Finite d), sdrop (nat number_trades_in_forecast) g)"
    by simp
  ultimately show ?thesis using d(2) pk by blast
qed

subsection \<open>Runs on concrete inputs\<close>

lemma run_path_length_overflow:
  "make_one_equity_sequence trades fraction 2147483647 initial_capital g
     = Inl Uncaught_Length_Error"
  by (simp add: make_one_equity_sequence_def to_int32_def)

lemma run_empty_series:
  "make_one_equity_sequence [] fraction 10 initial_capital g
     = Inl Undefined_Distribution_Range"
  by (simp add: make_one_equity_sequence_def to_int32_def size_t_pred_def)

lemma run_curve_gain:
  "make_one_equity_sequence [1 / 100] 5 1 100 (sconst 0)
     = Inr (([100, 105], Finite 0), sconst 0)"
  by (simp add: make_one_equity_sequence_def to_int32_def size_t_pred_def equity_step_def
        uniform_int_def calculateDrawdown_def divide_double_def Let_def eval_nat_numeral)

lemma run_curve_half:
  "make_one_equity_sequence [- 1 / 2] 1 1 100 (sconst 0)
     = Inr (([100, 50], Finite (1 / 2)), sconst 0)"
  by (simp add: make_one_equity_sequence_def to_int32_def size_t_pred_def equity_step_def
        uniform_int_def calculateDrawdown_def divide_double_def Let_def eval_nat_numeral)

lemma run_tail_gain:
  "analyze_distribution_of_drawdown [1 / 100] 5 1 100 (1 / 10) 1 (sconst 0)
     = Inr (Finite 0, sconst 0)"
  by (simp add: analyze_distribution_of_drawdown_def run_curve_gain divide_double_def)

lemma run_bisection:
  "bisection_loop [1 / 100] 1 100 (1 / 10) (1 / 10) 1 False 0 0 10 1 (sconst 0)
     = Inr (5, 1, sconst 0)"
  by (simp add: bisection_loop.simps [of _ _ _ _ _ _ False 0]
        bisection_loop.simps [of _ _ _ _ _ _ True] run_tail_gain)

lemma run_repetition:
  "repetition [1 / 100] 252 1 100 (1 / 10) (1 / 10) 1 (sconst 0) = Inr ((5, 5), sconst 0)"
  by (simp add: repetition_def run_bisection run_curve_gain CAR25_of_def size_t_pred_def
        calculateCAGR_def)

section \<open>The claims\<close>

text \<open>
  C1. The claim: on an empty Trade Return Series \<open>risk_normalization\<close> refuses to
  run and surfaces an explicit error result. The function has no such check. With an
  empty series and positive counts its first simulated curve constructs the index
  distribution on the empty range \<open>[0, -1]\<close> and would index the empty series: the
  run has no defined result, and no error is reported to the caller.
\<close>

theorem risk_normalization_empty_counterexample:
  "risk_normalization [] 504 10 100000 5 (1 / 10) 100 5 (sconst 0)
     = Inl Undefined_Distribution_Range"
  by (simp add: risk_normalization_def repetition_def
        bisection_loop.simps [of _ _ _ _ _ _ False 0] analyze_distribution_of_drawdown_def
        run_empty_series eval_nat_numeral)

text \<open>
  C1, amended. The refusal is made by the caller: on an empty series \<open>main\<close> reports
  the error and returns the exit status 1, whatever the generator, and
  \<open>risk_normalization\<close> is not called.
\<close>

theorem main_program_refuses_empty:
  "main_program [] g = Inr (1, None)"
  by (simp add: main_program_def)

text \<open>
  C2. For a non-empty series (of at most \<open>2^31\<close> elements), a path length \<open>N\<close> with
  \<open>0 \<le> N < 2^31 - 1\<close> and a positive sample count, the bisection loop of a
  repetition, entered as lines 150 to 159 set it up and on any state of the generator,
  ends after at least 1 and at most 1000 iterations with a fraction in \<open>[0, 10]\<close>; the
  repetition records that fraction, and every safe fraction that \<open>risk_normalization\<close>
  collects lies in \<open>[0, 10]\<close>. The loop is a total function: its termination is proved
  with the definition.
\<close>

theorem bisection_within_cap:
  assumes "trades \<noteq> []" and "length trades \<le> 2147483648"
    and "0 \<le> number_trades_in_forecast" and "number_trades_in_forecast < 2147483647"
    and "0 < number_equity_in_CDF"
  shows "(\<exists>fraction iteration g1 CAR25 g2.
      bisection_loop trades number_trades_in_forecast initial_capital tail_percentile
        drawdown_tolerance number_equity_in_CDF False 0 0 10 1 g
        = Inr (fraction, iteration, g1) \<and>
      1 \<le> iteration \<and> iteration \<le> 1000 \<and> 0 \<le> fraction \<and> fraction \<le> 10 \<and>
      repetition trades number_days_in_forecast number_trades_in_forecast initial_capital
        tail_percentile drawdown_tolerance number_equity_in_CDF g
        = Inr ((fraction, CAR25), g2)) \<and>
    (\<exists>safe_f_list CAR25_list.
      repetition_loop trades number_days_in_forecast number_trades_in_forecast
        initial_capital tail_percentile drawdown_tolerance number_equity_in_CDF
        (nat number_repetitions) [] [] g = Inr (safe_f_list, CAR25_list) \<and>
      length safe_f_list = nat number_repetitions \<and>
      (\<forall>f\<in>set safe_f_list. 0 \<le> f \<and> f \<le> 10))"
proof
  from assms have series: "trades \<noteq> [] \<and> length trades \<le> 2147483648"
    and path: "0 \<le> number_trades_in_forecast \<and> number_trades_in_forecast < 2147483647"
    by simp_all
  show "\<exists>fraction iteration g1 CAR25 g2.
      bisection_loop trades number_trades_in_forecast initial_capital tail_percentile
        drawdown_tolerance number_equity_in_CDF False 0 0 10 1 g
        = Inr (fraction, iteration, g1) \<and>
      1 \<le> iteration \<and> iteration \<le> 1000 \<and> 0 \<le> fraction \<and> fraction \<le> 10 \<and>
      repetition trades number_days_in_forecast number_trades_in_forecast initial_capital
        tail_percentile drawdown_tolerance number_equity_in_CDF g
        = Inr ((fraction, CAR25), g2)"
    by (rule repetition_runs [OF series path assms(5)])
  have "\<forall>f\<in>set ([] :: real list). 0 \<le> f \<and> f \<le> 10" by simp
  from repetition_loop_runs [OF series path assms(5) this, of number_days_in_forecast
      initial_capital tail_percentile drawdown_tolerance "nat number_repetitions" "[]" g]
  show "\<exists>safe_f_list CAR25_list.
      repetition_loop trades number_days_in_forecast number_trades_in_forecast
        initial_capital tail_percentile drawdown_tolerance number_equity_in_CDF
        (nat number_repetitions) [] [] g = Inr (safe_f_list, CAR25_list) \<and>
      length safe_f_list = nat number_repetitions \<and>
      (\<forall>f\<in>set safe_f_list. 0 \<le> f \<and> f \<le> 10)"
    by simp
qed

theorem bisection_within_cap_witness:
  "[1 / 100] \<noteq> ([] :: real list) \<and> length [1 / 100 :: real] \<le> 2147483648 \<and>
   (0 :: int) \<le> 1 \<and> (1 :: int) < 2147483647 \<and> (0 :: int) < 1 \<and>
   bisection_loop [1 / 100] 1 100 (1 / 10) (1 / 10) 1 False 0 0 10 1 (sconst 0)
     = Inr (5, 1, sconst 0) \<and>
   repetition [1 / 100] 252 1 100 (1 / 10) (1 / 10) 1 (sconst 0) = Inr ((5, 5), sconst 0) \<and>
   (\<exists>safe_f_list CAR25_list.
      repetition_loop [1 / 100] 252 1 100 (1 / 10) (1 / 10) 1 (nat 1) [] [] (sconst 0)
        = Inr (safe_f_list, CAR25_list) \<and>
      length safe_f_list = nat 1 \<and>
      (\<forall>f\<in>set safe_f_list. 0 \<le> f \<and> f \<le> 10))"
proof -
  have h: "[1 / 100] \<noteq> ([] :: real list)" "length [1 / 100 :: real] \<le> 2147483648"
    "(0 :: int) \<le> 1" "(1 :: int) < 2147483647" "(0 :: int) < 1"
    by simp_all
  from bisection_within_cap [OF h, of 100 "1 / 10" "1 / 10" "sconst 0" 252 1]
  have "\<exists>safe_f_list CAR25_list.
      repetition_loop [1 / 100] 252 1 100 (1 / 10) (1 / 10) 1 (nat 1) [] [] (sconst 0)
        = Inr (safe_f_list, CAR25_list) \<and>
      length safe_f_list = nat 1 \<and>
      (\<forall>f\<in>set safe_f_list. 0 \<le> f \<and> f \<le> 10)"
    by (rule conjunct2)
  with h run_bisection run_repetition show ?thesis by blast
qed

text \<open>
  C3. For a non-empty trade series (of at most \<open>2^31\<close> elements) and a path length
  \<open>N\<close> with \<open>0 \<le> N < 2^31 - 1\<close>, \<open>make_one_equity_sequence\<close> returns a curve of
  exactly \<open>N + 1\<close> values that starts at the initial capital; for each step \<open>i\<close> from
  1 to \<open>N\<close> the value is \<open>curve[i-1] + series[index] * fraction * curve[i-1]\<close>, where
  \<open>index\<close> is the draw number \<open>i\<close> of the generator and lies in
  \<open>[0, series.length - 1]\<close>. The drawdown returned is that of the curve, and \<open>N\<close>
  draws are consumed.
\<close>

theorem make_one_equity_sequence_recurrence:
  assumes "trades \<noteq> []" and "length trades \<le> 2147483648"
    and "0 \<le> number_trades_in_forecast" and "number_trades_in_forecast < 2147483647"
  shows "\<exists>curve max_drawdown.
     make_one_equity_sequence trades fraction number_trades_in_forecast initial_capital g
       = Inr ((curve, max_drawdown), sdrop (nat number_trades_in_forecast) g) \<and>
     calculateDrawdown curve = Inr max_drawdown \<and>
     length curve = nat number_trades_in_forecast + 1 \<and>
     curve ! 0 = initial_capital \<and>
     (\<forall>i. 1 \<le> i \<and> i \<le> nat number_trades_in_forecast \<longrightarrow>
        g !! (i - 1) mod length trades < length trades \<and>
        curve ! i = curve ! (i - 1)
          + trades ! (g !! (i - 1) mod length trades) * fraction * curve ! (i - 1))"
proof -
  from assms have series: "trades \<noteq> [] \<and> length trades \<le> 2147483648"
    and path: "0 \<le> number_trades_in_forecast \<and> number_trades_in_forecast < 2147483647"
    by simp_all
  from make_one_equity_sequence_curve [OF series path, of fraction initial_capital g]
  obtain curve where
    run: "make_one_equity_sequence trades fraction number_trades_in_forecast initial_capital g
       = Inr ((curve, drawdown_loop initial_capital (Finite 0) curve),
              sdrop (nat number_trades_in_forecast) g)"
    and len: "length curve = nat number_trades_in_forecast + 1"
    and c0: "curve ! 0 = initial_capital"
    and rec: "\<forall>i. 1 \<le> i \<and> i \<le> nat number_trades_in_forecast \<longrightarrow>
        g !! (i - 1) mod length trades < length trades \<and>
        curve ! i = curve ! (i - 1)
          + trades ! (g !! (i - 1) mod length trades) * fraction * curve ! (i - 1)"
    by blast
  from len have ne: "curve \<noteq> []" by auto
  with c0 have "hd curve = initial_capital" by (simp add: hd_conv_nth)
  with calculateDrawdown_nonempty [OF ne]
  have "calculateDrawdown curve = Inr (drawdown_loop initial_capital (Finite 0) curve)"
    by simp
  with run len c0 rec show ?thesis by blast
qed

theorem make_one_equity_sequence_recurrence_witness:
  "[1 / 10, - 1 / 10] \<noteq> ([] :: real list) \<and>
   length [1 / 10, - 1 / 10 :: real] \<le> 2147483648 \<and>
   (0 :: int) \<le> 2 \<and> (2 :: int) < 2147483647 \<and>
   make_one_equity_sequence [1 / 10, - 1 / 10] 2 2 100 (sconst 0)
     = Inr (([100, 120, 144], Finite 0), sconst 0) \<and>
   (\<exists>curve max_drawdown.
     make_one_equity_sequence [1 / 10, - 1 / 10] 2 2 100 (sconst 0)
       = Inr ((curve, max_drawdown), sdrop (nat 2) (sconst 0)) \<and>
     calculateDrawdown curve = Inr max_drawdown \<and>
     length curve = nat 2 + 1 \<and>
     curve ! 0 = 100 \<and>
     (\<forall>i. 1 \<le> i \<and> i \<le> nat 2 \<longrightarrow>
        sconst 0 !! (i - 1) mod length [1 / 10, - 1 / 10 :: real]
          < length [1 / 10, - 1 / 10 :: real] \<and>
        curve ! i = curve ! (i - 1)
          + [1 / 10, - 1 / 10] ! (sconst 0 !! (i - 1) mod length [1 / 10, - 1 / 10 :: real])
              * 2 * curve ! (i - 1)))"
proof -
  have h: "[1 / 10, - 1 / 10] \<noteq> ([] :: real list)"
    "length [1 / 10, - 1 / 10 :: real] \<le> 2147483648"
    "(0 :: int) \<le> 2" "(2 :: int) < 2147483647"
    by simp_all
  have run: "make_one_equity_sequence [1 / 10, - 1 / 10] 2 2 100 (sconst 0)
               = Inr (([100, 120, 144], Finite 0), sconst 0)"
    by (simp add: make_one_equity_sequence_def to_int32_def size_t_pred_def equity_step_def
          uniform_int_def calculateDrawdown_def divide_double_def Let_def eval_nat_numeral)
  from make_one_equity_sequence_recurrence [OF h, of 2 100 "sconst 0"] h run
  show ?thesis by blast
qed

text \<open>
  C4. \<open>calculateDrawdown\<close> scans a non-empty curve once. The peak it divides by at
  point \<open>i\<close> is the running peak up to and including \<open>i\<close>. When no running peak is
  zero, the result is the maximum of \<open>(peak - equity) / peak\<close> over all points. For
  every non-empty curve that never decreases the result is 0, and for the curve
  \<open>[100, 90, 95, 80, 120]\<close> it is \<open>0.20\<close>.
\<close>

theorem calculateDrawdown_max_decline:
  "(curve \<noteq> [] \<longrightarrow>
      (\<forall>i<length curve. peaks (hd curve) curve ! i = running_peak curve i)) \<and>
   (curve \<noteq> [] \<and> (\<forall>i<length curve. running_peak curve i \<noteq> 0) \<longrightarrow>
      calculateDrawdown curve = Inr (Finite (max_relative_decline curve))) \<and>
   (curve \<noteq> [] \<and> sorted curve \<longrightarrow> calculateDrawdown curve = Inr (Finite 0)) \<and>
   calculateDrawdown [100, 90, 95, 80, 120] = Inr (Finite (20 / 100))"
proof (intro conjI impI allI)
  show "peaks (hd curve) curve ! i = running_peak curve i" if "i < length curve" for i
    using that by (rule peaks_running_peak)
  show "calculateDrawdown curve = Inr (Finite (max_relative_decline curve))"
    if "curve \<noteq> [] \<and> (\<forall>i<length curve. running_peak curve i \<noteq> 0)"
    using that drawdown_max_relative_decline by blast
  show "calculateDrawdown curve = Inr (Finite 0)" if "curve \<noteq> [] \<and> sorted curve"
    using that drawdown_nondecreasing by blast
  show "calculateDrawdown [100, 90, 95, 80, 120] = Inr (Finite (20 / 100))"
    by (simp add: calculateDrawdown_def divide_double_def)
qed

theorem calculateDrawdown_max_decline_witness:
  "[100, 90, 95] \<noteq> ([] :: real list) \<and>
   peaks (hd [100, 90, 95]) [100, 90, 95] ! 2 = running_peak [100, 90, 95] 2 \<and>
   max_relative_decline [100, 90, 95] = 1 / 10 \<and>
   calculateDrawdown [100, 90, 95] = Inr (Finite (1 / 10)) \<and>
   sorted [100, 100, 110 :: real] \<and>
   calculateDrawdown [100, 100, 110] = Inr (Finite 0)"
proof -
  have nz: "\<forall>i<length [100, 90, 95 :: real]. running_peak [100, 90, 95] i \<noteq> 0"
    by (simp add: running_peak_def All_less_Suc eval_nat_numeral)
  have run: "calculateDrawdown [100, 90, 95] = Inr (Finite (1 / 10))"
    by (simp add: calculateDrawdown_def divide_double_def)
  have s: "sorted [100, 100, 110 :: real]" by simp
  from calculateDrawdown_max_decline [of "[100, 90, 95]"] nz
  have "calculateDrawdown [100, 90, 95]
          = Inr (Finite (max_relative_decline [100, 90, 95]))"
    by blast
  with run have m: "max_relative_decline [100, 90, 95] = 1 / 10" by simp
  have "2 < length [100, 90, 95 :: real]" by simp
  with calculateDrawdown_max_decline [of "[100, 90, 95]"]
  have "peaks (hd [100, 90, 95]) [100, 90, 95] ! 2 = running_peak [100, 90, 95] 2"
    by blast
  with calculateDrawdown_max_decline [of "[100, 100, 110]"] run s m
  show ?thesis by blast
qed

text \<open>
  C5. The claim: for every curve the simulator produces from a positive initial capital,
  a non-empty series and a non-negative fraction, the drawdown lies in \<open>[0, 1)\<close>. It
  does not: with the single trade return \<open>-0.5\<close> and the fraction 4 one step takes the
  equity from 100 to \<open>-100\<close>, and the drawdown is 2.
\<close>

theorem simulated_drawdown_counterexample:
  "make_one_equity_sequence [- 1 / 2] 4 1 100 (sconst 0)
     = Inr (([100, - 100], Finite 2), sconst 0) \<and>
   \<not> (2 :: real) < 1"
  by (simp add: make_one_equity_sequence_def to_int32_def size_t_pred_def equity_step_def
        uniform_int_def calculateDrawdown_def divide_double_def Let_def eval_nat_numeral)

text \<open>
  C5, amended. For every curve the simulator produces from a positive initial capital, a
  non-empty series (of at most \<open>2^31\<close> elements) and a path length \<open>N\<close> with
  \<open>0 \<le> N < 2^31 - 1\<close>, the drawdown is a real number and at least 0, with no upper
  bound claimed: it is the largest of 0 and the quotients \<open>(peak - equity) / peak\<close>
  taken along the curve, and every peak divided by is at least the initial capital,
  hence positive.
\<close>

theorem simulated_drawdown_range:
  assumes "trades \<noteq> []" and "length trades \<le> 2147483648"
    and "0 \<le> number_trades_in_forecast" and "number_trades_in_forecast < 2147483647"
    and "0 < initial_capital"
  shows "\<exists>curve d g'.
     make_one_equity_sequence trades fraction number_trades_in_forecast initial_capital g
       = Inr ((curve, Finite d), g') \<and>
     0 \<le> d \<and>
     d = foldl max 0 (map2 (\<lambda>peak equity. (peak - equity) / peak)
                        (peaks (hd curve) curve) curve) \<and>
     (\<forall>p\<in>set (peaks (hd curve) curve). initial_capital \<le> p \<and> 0 < p)"
proof -
  from assms have series: "trades \<noteq> [] \<and> length trades \<le> 2147483648"
    and path: "0 \<le> number_trades_in_forecast \<and> number_trades_in_forecast < 2147483647"
    by simp_all
  from simulated_drawdown [OF series path assms(5), of fraction g] obtain curve d g' where
    run: "make_one_equity_sequence trades fraction number_trades_in_forecast
            initial_capital g = Inr ((curve, Finite d), g')"
    and d: "0 \<le> d"
      "d = foldl max 0 (map2 (\<lambda>peak equity. (peak - equity) / peak)
                          (peaks (hd curve) curve) curve)"
    and pk: "\<forall>p\<in>set (peaks (hd curve) curve). initial_capital \<le> p"
    by blast
  from pk assms(5) have "\<forall>p\<in>set (peaks (hd curve) curve). initial_capital \<le> p \<and> 0 < p"
    by force
  with run d show ?thesis by blast
qed

theorem simulated_drawdown_range_witness:
  "[- 1 / 2] \<noteq> ([] :: real list) \<and> length [- 1 / 2 :: real] \<le> 2147483648 \<and>
   (0 :: int) \<le> 1 \<and> (1 :: int) < 2147483647 \<and> (0 :: real) < 100 \<and>
   (\<exists>curve d g'.
     make_one_equity_sequence [- 1 / 2] 1 1 100 (sconst 0) = Inr ((curve, Finite d), g') \<and>
     curve = [100, 50] \<and> d = 1 / 2 \<and> 0 \<le> d \<and>
     d = foldl max 0 (map2 (\<lambda>peak equity. (peak - equity) / peak)
                        (peaks (hd curve) curve) curve) \<and>
     (\<forall>p\<in>set (peaks (hd curve) curve). 100 \<le> p \<and> 0 < p))"
proof -
  have h: "[- 1 / 2] \<noteq> ([] :: real list)" "length [- 1 / 2 :: real] \<le> 2147483648"
    "(0 :: int) \<le> 1" "(1 :: int) < 2147483647" "(0 :: real) < 100"
    by simp_all
  from simulated_drawdown_range [OF h, of 1 "sconst 0"] obtain curve d g' where
    run: "make_one_equity_sequence [- 1 / 2] 1 1 100 (sconst 0) = Inr ((curve, Finite d), g')"
    and d: "0 \<le> d"
      "d = foldl max 0 (map2 (\<lambda>peak equity. (peak - equity) / peak)
                          (peaks (hd curve) curve) curve)"
    and pk: "\<forall>p\<in>set (peaks (hd curve) curve). 100 \<le> p \<and> 0 < p"
    by blast
  from run run_curve_half have "curve = [100, 50]" "d = 1 / 2" by simp_all
  with h run d pk show ?thesis by blast
qed

text \<open>
  C6. In \<open>risk_normalization\<close> the CAR25 of a repetition is the element of the sorted
  list of collected CAR values at the 1-indexed rank \<open>ceil(0.25 * count)\<close>. For a
  non-empty list this rank lies between 1 and the count, so the clamp to the last index
  leaves it as it is. For the list \<open>[1,2,3,4,5,6,7,8]\<close> the element selected is 2.
\<close>

theorem CAR25_rank:
  "(CAR_list \<noteq> [] \<longrightarrow>
      1 \<le> nat \<lceil>0.25 * real (length CAR_list)\<rceil> \<and>
      nat \<lceil>0.25 * real (length CAR_list)\<rceil> \<le> length CAR_list \<and>
      min (nat \<lceil>0.25 * real (length CAR_list)\<rceil> - 1) (length CAR_list - 1)
        = nat \<lceil>0.25 * real (length CAR_list)\<rceil> - 1 \<and>
      CAR25_of CAR_list
        = Inr (sort CAR_list ! (nat \<lceil>0.25 * real (length CAR_list)\<rceil> - 1))) \<and>
   CAR25_of [1, 2, 3, 4, 5, 6, 7, 8] = Inr 2"
proof (intro conjI impI)
  assume ne: "CAR_list \<noteq> []"
  then have pos: "0 < length CAR_list" by simp
  show "1 \<le> nat \<lceil>0.25 * real (length CAR_list)\<rceil>"
    and "nat \<lceil>0.25 * real (length CAR_list)\<rceil> \<le> length CAR_list"
    using quarter_rank_bounds [OF pos] by blast+
  then show "min (nat \<lceil>0.25 * real (length CAR_list)\<rceil> - 1) (length CAR_list - 1)
        = nat \<lceil>0.25 * real (length CAR_list)\<rceil> - 1"
    by linarith
  show "CAR25_of CAR_list
          = Inr (sort CAR_list ! (nat \<lceil>0.25 * real (length CAR_list)\<rceil> - 1))"
    using ne by (rule CAR25_of_rank)
next
  show "CAR25_of [1, 2, 3, 4, 5, 6, 7, 8] = Inr 2"
    by (simp add: CAR25_of_def size_t_pred_def)
qed

theorem CAR25_rank_witness:
  "[3, 1, 2 :: real] \<noteq> [] \<and> CAR25_of [3, 1, 2] = Inr 1"
  using CAR25_rank [of "[3, 1, 2]"] by simp

text \<open>
  C7. \<open>computeMean\<close> is the arithmetic mean and \<open>computeStdDev\<close> the sample standard
  deviation with divisor \<open>n - 1\<close> around the mean it is given, which is the computed
  mean in \<open>computeStatistics\<close>; the standard deviation is 0 for fewer than 2 elements.
  For \<open>[2,4,4,4,5,5,7,9]\<close> the mean is 5 and the standard deviation is
  \<open>sqrt (32 / 7)\<close>, which is 2.138 to three decimals.
\<close>

theorem statistics_mean_stdev:
  "(data \<noteq> [] \<longrightarrow> computeMean data = sum_list data / real (length data)) \<and>
   (2 \<le> length data \<longrightarrow>
      computeStdDev data mean
        = sqrt ((\<Sum>x\<leftarrow>data. (x - mean)\<^sup>2) / (real (length data) - 1))) \<and>
   (length data < 2 \<longrightarrow> computeStdDev data mean = 0) \<and>
   computeStatistics data = (computeMean data, computeStdDev data (computeMean data)) \<and>
   computeStatistics [2, 4, 4, 4, 5, 5, 7, 9] = (5, sqrt (32 / 7)) \<and>
   \<bar>sqrt (32 / 7) - 2138 / 1000\<bar> < (5 / 10000 :: real)"
proof (intro conjI impI)
  show "computeMean data = sum_list data / real (length data)" if "data \<noteq> []"
    using that by (simp add: computeMean_def foldl_plus_sum_list)
  show "computeStdDev data mean
        = sqrt ((\<Sum>x\<leftarrow>data. (x - mean)\<^sup>2) / (real (length data) - 1))"
    if "2 \<le> length data"
    using that by (simp add: computeStdDev_def foldl_squares_sum_list of_nat_diff)
  show "computeStdDev data mean = 0" if "length data < 2"
    using that by (simp add: computeStdDev_def)
  show "computeStatistics data = (computeMean data, computeStdDev data (computeMean data))"
    by (simp add: computeStatistics_def Let_def)
  show "computeStatistics [2, 4, 4, 4, 5, 5, 7, 9] = (5, sqrt (32 / 7))"
    by (simp add: computeStatistics_def Let_def computeMean_def computeStdDev_def)
  show "\<bar>sqrt (32 / 7) - 2138 / 1000\<bar> < (5 / 10000 :: real)"
  proof -
    have "\<bar>x - 2138 / 1000\<bar> < 5 / 10000" if "(21375 / 10000) < x \<and> x < (21385 / 10000)" for x :: real
      using that by linarith
    then show ?thesis using sqrt_32_7_bounds by blast
  qed
qed

theorem statistics_mean_stdev_witness:
  "[1, 3] \<noteq> ([] :: real list) \<and> computeMean [1, 3] = 2 \<and>
   2 \<le> length [1, 3 :: real] \<and> computeStdDev [1, 3] 2 = sqrt 2 \<and>
   length [7 :: real] < 2 \<and> computeStdDev [7] 7 = 0"
  using statistics_mean_stdev [of "[1, 3]" 2] statistics_mean_stdev [of "[7]" 7]
  by simp

text \<open>
  C8. \<open>calculateCAGR initial final years\<close> is
  \<open>((final / initial) ^ (1 / years) - 1) * 100\<close> when the three arguments are
  positive, and 0 as soon as one of them is not; for 100000, 121000 and 2 years it
  is 10.
\<close>

theorem calculateCAGR_formula:
  "(0 < initial_equity \<and> 0 < final_equity \<and> 0 < years \<longrightarrow>
      calculateCAGR initial_equity final_equity years
        = ((final_equity / initial_equity) powr (1 / years) - 1) * 100) \<and>
   (initial_equity \<le> 0 \<or> final_equity \<le> 0 \<or> years \<le> 0 \<longrightarrow>
      calculateCAGR initial_equity final_equity years = 0) \<and>
   calculateCAGR 100000 121000 2 = 10"
proof (intro conjI impI)
  have "(121000 / 100000 :: real) powr (1 / 2) = sqrt (121 / 100)"
    by (simp add: powr_half_sqrt)
  also have "\<dots> = 11 / 10"
    by (rule real_sqrt_unique) (simp_all add: power2_eq_square)
  finally show "calculateCAGR 100000 121000 2 = 10"
    by (simp add: calculateCAGR_def)
qed (auto simp: calculateCAGR_def)

theorem calculateCAGR_formula_witness:
  "(0 :: real) < 1 \<and> (0 :: real) < 4 \<and> (0 :: real) < 1 / 2 \<and> calculateCAGR 1 4 (1 / 2) = 1500 \<and>
   ((0 :: real) \<le> 0 \<or> (5 :: real) \<le> 0 \<or> (1 :: real) \<le> 0) \<and> calculateCAGR 0 5 1 = 0"
  using calculateCAGR_formula [of 1 4 "1 / 2"] calculateCAGR_formula [of 0 5 1]
  by simp

text \<open>
  C9. At the risk fraction 0, for every non-empty trade series (of at most \<open>2^31\<close>
  elements), path length \<open>N\<close> with \<open>0 \<le> N < 2^31 - 1\<close>, positive drawdown tolerance
  and positive sample count, every simulated curve is constant at the initial capital
  with drawdown 0, and \<open>analyze_distribution_of_drawdown\<close> returns the tail
  probability 0.
\<close>

theorem tail_probability_fraction_0:
  assumes "trades \<noteq> []" and "length trades \<le> 2147483648"
    and "0 \<le> number_trades_in_forecast" and "number_trades_in_forecast < 2147483647"
    and "0 < drawdown_tolerance" and "0 < number_equity_in_CDF"
  shows "make_one_equity_sequence trades 0 number_trades_in_forecast initial_capital g
           = Inr ((replicate (nat number_trades_in_forecast + 1) initial_capital, Finite 0),
                  sdrop (nat number_trades_in_forecast) g) \<and>
         analyze_distribution_of_drawdown trades 0 number_trades_in_forecast
           initial_capital drawdown_tolerance number_equity_in_CDF g
           = Inr (Finite 0,
                  sdrop (nat number_equity_in_CDF * nat number_trades_in_forecast) g)"
proof
  from assms have series: "trades \<noteq> [] \<and> length trades \<le> 2147483648"
    and path: "0 \<le> number_trades_in_forecast \<and> number_trades_in_forecast < 2147483647"
    by simp_all
  show "make_one_equity_sequence trades 0 number_trades_in_forecast initial_capital g
           = Inr ((replicate (nat number_trades_in_forecast + 1) initial_capital, Finite 0),
                  sdrop (nat number_trades_in_forecast) g)"
    by (rule make_one_equity_sequence_fraction_0 [OF series path])
  from assms(5) have "0 \<le> drawdown_tolerance" by simp
  from analyze_fraction_0 [OF series path this assms(6)]
  show "analyze_distribution_of_drawdown trades 0 number_trades_in_forecast
           initial_capital drawdown_tolerance number_equity_in_CDF g
           = Inr (Finite 0,
                  sdrop (nat number_equity_in_CDF * nat number_trades_in_forecast) g)" .
qed

theorem tail_probability_fraction_0_witness:
  "[1 / 100, - 3 / 100] \<noteq> ([] :: real list) \<and>
   length [1 / 100, - 3 / 100 :: real] \<le> 2147483648 \<and>
   (0 :: int) \<le> 2 \<and> (2 :: int) < 2147483647 \<and> (0 :: real) < 1 / 10 \<and> (0 :: int) < 3 \<and>
   make_one_equity_sequence [1 / 100, - 3 / 100] 0 2 100000 (sconst 1)
     = Inr (([100000, 100000, 100000], Finite 0), sconst 1) \<and>
   analyze_distribution_of_drawdown [1 / 100, - 3 / 100] 0 2 100000 (1 / 10) 3 (sconst 1)
     = Inr (Finite 0, sconst 1)"
proof -
  have h: "[1 / 100, - 3 / 100] \<noteq> ([] :: real list)"
    "length [1 / 100, - 3 / 100 :: real] \<le> 2147483648"
    "(0 :: int) \<le> 2" "(2 :: int) < 2147483647" "(0 :: real) < 1 / 10" "(0 :: int) < 3"
    by simp_all
  have curve: "replicate (nat 2 + 1) (100000 :: real) = [100000, 100000, 100000]"
    by (simp add: eval_nat_numeral)
  have gen: "sdrop k (sconst (1 :: nat)) = sconst 1" for k
    by simp
  from tail_probability_fraction_0 [OF h, of 100000 "sconst 1", unfolded curve gen] h
  show ?thesis by blast
qed

text \<open>
  C10. \<open>computeMean\<close> of an empty sequence is 0, so that \<open>risk_normalization\<close>
  returns the means 0 (and the standard deviations 0) when no repetition runs.
\<close>

theorem computeMean_empty:
  "computeMean [] = 0 \<and>
   (number_repetitions \<le> 0 \<longrightarrow>
      risk_normalization trades number_days_in_forecast number_trades_in_forecast
        initial_capital tail_percentile drawdown_tolerance number_equity_in_CDF
        number_repetitions g
      = Inr \<lparr>safe_f_mean = 0, safe_f_stdev = 0, CAR25_mean = 0, CAR25_stdev = 0\<rparr>)"
  by (simp add: risk_normalization_def computeStatistics_def computeMean_def
        computeStdDev_def)

theorem computeMean_empty_witness:
  "(0 :: int) \<le> 0 \<and>
   risk_normalization [1 / 100] 504 10 100000 5 (1 / 10) 100 0 (sconst 0)
     = Inr \<lparr>safe_f_mean = 0, safe_f_stdev = 0, CAR25_mean = 0, CAR25_stdev = 0\<rparr>"
  using computeMean_empty [of 0 "[1 / 100]" 504 10 100000 5 "1 / 10" 100 "sconst 0"]
  by simp

end
